theory Spec2Isabelle
  imports Main "HOL-Library.Sublist" "HOL-Library.Char_ord" "HOL-Library.List_Lexorder"
    "HOL-Library.Multiset"
begin

section \<open>Text\<close>

text \<open>
  A Python \<open>str\<close> is modelled as a \<open>string\<close> holding its UTF-8 encoding. Every character
  that \<^verbatim>\<open>polaris_cdash.py\<close> inspects (the escape character, the members of the pattern's
  character classes, the letters of \<^verbatim>\<open>ERROR\<close>, the path separator) is ASCII, an ASCII byte
  never occurs inside the encoding of another character, and the lexicographic order on
  UTF-8 byte strings is the order on code-point sequences that \<^verbatim>\<open>list.sort\<close> uses.
\<close>

text \<open>\<^verbatim>\<open>sub in s\<close> on strings: scan the start positions from the left.\<close>

fun contains :: "string \<Rightarrow> string \<Rightarrow> bool" where
  "contains sub [] = (sub = [])"
| "contains sub (c # cs) = (prefix sub (c # cs) \<or> contains sub cs)"

text \<open>\<^verbatim>\<open>s.split(sep)\<close> for a one-character separator: never the empty list.\<close>

fun split_sep :: "char \<Rightarrow> string \<Rightarrow> string list" where
  "split_sep sep [] = [[]]"
| "split_sep sep (c # cs) =
     (if c = sep then [] # split_sep sep cs
      else (let r = split_sep sep cs in (c # hd r) # tl r))"

text \<open>\<^verbatim>\<open>sep.join(parts)\<close>.\<close>

fun join_sep :: "string \<Rightarrow> string list \<Rightarrow> string" where
  "join_sep sep [] = []"
| "join_sep sep [p] = p"
| "join_sep sep (p # q # ps) = p @ sep @ join_sep sep (q # ps)"

text \<open>\<^verbatim>\<open>str(n)\<close> for an integer: decimal digits, a minus sign for negatives.\<close>

definition digit_char :: "nat \<Rightarrow> char" where
  "digit_char d = ''0123456789'' ! d"

fun str_nat :: "nat \<Rightarrow> string" where
  "str_nat n = (if n < 10 then [digit_char n] else str_nat (n div 10) @ [digit_char (n mod 10)])"

definition str_int :: "int \<Rightarrow> string" where
  "str_int i = (if i < 0 then CHR ''-'' # str_nat (nat (- i)) else str_nat (nat i))"

section \<open>Regular expressions as \<^verbatim>\<open>re\<close> runs them\<close>

text \<open>
  The fragment of Python's pattern language that \<^verbatim>\<open>strip_ansi_codes\<close> uses: a literal
  character, a character class, sequence, alternation and the greedy star of a class.
  \<open>ends r s\<close> lists what is left of \<open>s\<close> after each way \<open>r\<close> can match at its start, in the
  order the backtracking matcher tries them: the left alternative first, the longest
  repetition first. The match \<^verbatim>\<open>re\<close> reports at a position is the head of that list.
\<close>

datatype regex =
    Chr char
  | Cls "char \<Rightarrow> bool"
  | Seq regex regex
  | Alt regex regex
  | StarCls "char \<Rightarrow> bool"

primrec star_ends :: "(char \<Rightarrow> bool) \<Rightarrow> string \<Rightarrow> string list" where
  "star_ends p [] = [[]]"
| "star_ends p (c # cs) = (if p c then star_ends p cs else []) @ [c # cs]"

primrec ends :: "regex \<Rightarrow> string \<Rightarrow> string list" where
  "ends (Chr a) s = (case s of [] \<Rightarrow> [] | c # cs \<Rightarrow> if c = a then [cs] else [])"
| "ends (Cls p) s = (case s of [] \<Rightarrow> [] | c # cs \<Rightarrow> if p c then [cs] else [])"
| "ends (Seq r1 r2) s = concat (map (ends r2) (ends r1 s))"
| "ends (Alt r1 r2) s = ends r1 s @ ends r2 s"
| "ends (StarCls p) s = star_ends p s"

text \<open>
  \<^verbatim>\<open>pattern.sub('', text)\<close>: at each position from the left, the first match found there
  is deleted and the scan goes on behind it; where nothing matches, the character is kept.
  A match of length zero deletes nothing and the character behind it is kept, too.
\<close>

function sub_empty :: "regex \<Rightarrow> string \<Rightarrow> string" where
  "sub_empty r [] = []"
| "sub_empty r (c # cs) =
     (case ends r (c # cs) of
        [] \<Rightarrow> c # sub_empty r cs
      | rest # _ \<Rightarrow>
          if length rest < length (c # cs) then sub_empty r rest else c # sub_empty r cs)"
  by pat_completeness auto
termination
  by (relation "measure (\<lambda>(r, s). length s)") auto

section \<open>Shared utilities\<close>

definition in_range :: "char \<Rightarrow> char \<Rightarrow> char \<Rightarrow> bool" where
  "in_range lo hi c = (lo \<le> c \<and> c \<le> hi)"

definition ESC :: char where
  "ESC = CHR 0x1B"

text \<open>The pattern \<^verbatim>\<open>\x1B(?:[@-Z\\-_]|\[[0-?]*[ -/]*[@-~])\<close>.\<close>

definition ansi_escape :: regex where
  "ansi_escape =
     Seq (Chr ESC)
       (Alt (Cls (\<lambda>c. in_range CHR ''@'' CHR ''Z'' c \<or> in_range CHR 0x5C CHR ''_'' c))
            (Seq (Chr CHR ''['')
              (Seq (StarCls (in_range CHR ''0'' CHR ''?''))
                (Seq (StarCls (in_range CHR '' '' CHR ''/''))
                     (Cls (in_range CHR ''@'' CHR ''~''))))))"

definition strip_ansi_codes :: "string \<Rightarrow> string" where
  "strip_ansi_codes text = sub_empty ansi_escape text"

section \<open>The parts of \<^verbatim>\<open>os.path\<close> the program calls (POSIX)\<close>

text \<open>\<^verbatim>\<open>os.path.join(a, b)\<close>.\<close>

definition path_join :: "string \<Rightarrow> string \<Rightarrow> string" where
  "path_join a b =
     (if prefix ''/'' b then b
      else if a = [] \<or> last a = CHR ''/'' then a @ b
      else a @ ''/'' @ b)"

text \<open>\<^verbatim>\<open>os.path.basename(p)\<close>: what follows the last separator; all of \<open>p\<close> when there is none.\<close>

definition basename :: "string \<Rightarrow> string" where
  "basename p = rev (takeWhile (\<lambda>c. c \<noteq> CHR ''/'') (rev p))"

text \<open>
  The loop of \<^verbatim>\<open>os.path.normpath\<close> over the components of the path, \<open>new_comps\<close> being
  the list it builds: empty and \<^verbatim>\<open>.\<close> components are skipped, a \<^verbatim>\<open>..\<close> removes the component
  before it, unless there is none to remove in a relative path or the one before is \<^verbatim>\<open>..\<close>
  itself; at the root a \<^verbatim>\<open>..\<close> with nothing before it is dropped.
\<close>

fun norm_comps :: "bool \<Rightarrow> string list \<Rightarrow> string list \<Rightarrow> string list" where
  "norm_comps initial_slashes [] new_comps = new_comps"
| "norm_comps initial_slashes (cmp # comps) new_comps =
     (if cmp = [] \<or> cmp = ''.'' then norm_comps initial_slashes comps new_comps
      else if cmp \<noteq> ''..'' \<or> (\<not> initial_slashes \<and> new_comps = [])
                \<or> (new_comps \<noteq> [] \<and> last new_comps = ''..'')
        then norm_comps initial_slashes comps (new_comps @ [cmp])
      else if new_comps \<noteq> [] then norm_comps initial_slashes comps (butlast new_comps)
      else norm_comps initial_slashes comps new_comps)"

text \<open>The number of leading slashes \<^verbatim>\<open>normpath\<close> keeps: two stay two, three or more are one.\<close>

definition initial_slashes :: "string \<Rightarrow> nat" where
  "initial_slashes p =
     (if \<not> prefix ''/'' p then 0
      else if prefix ''//'' p \<and> \<not> prefix ''///'' p then 2
      else 1)"

definition normpath :: "string \<Rightarrow> string" where
  "normpath p =
     (if p = [] then ''.''
      else
        (let n = initial_slashes p;
             comps = norm_comps (n \<noteq> 0) (split_sep CHR ''/'' p) [];
             q = replicate n CHR ''/'' @ join_sep ''/'' comps
         in if q = [] then ''.'' else q))"

section \<open>Documents, the environment and the state of a run\<close>

text \<open>An \<^verbatim>\<open>ElementTree\<close> element: tag, attributes in insertion order, text, children.\<close>

datatype xml = Element (tag: string) (attrib: "(string \<times> string) list")
  (elem_text: "string option") (children: "xml list")

text \<open>
  What is written to a file: the tree pretty-printed by \<^verbatim>\<open>minidom\<close> with tab indentation,
  or written by \<^verbatim>\<open>ElementTree.write\<close> with a UTF-8 declaration. The serialisation to
  characters is not modelled.
\<close>

datatype document = PrettyXml xml | Utf8Xml xml

text \<open>
  An exception, as far as the program tells them apart: \<^verbatim>\<open>ImportError\<close> (and its
  subclasses), or any other \<^verbatim>\<open>Exception\<close>; each with its message.
\<close>

datatype exn = ImportError string | OtherError string

text \<open>Assignment to a key of a \<^verbatim>\<open>dict\<close>: a new key goes last, an old key keeps its place.\<close>

fun dict_set :: "(string \<times> string) list \<Rightarrow> string \<Rightarrow> string \<Rightarrow> (string \<times> string) list" where
  "dict_set [] k v = [(k, v)]"
| "dict_set (p # ps) k v = (if fst p = k then (k, v) # ps else p # dict_set ps k v)"

text \<open>
  The \<^verbatim>\<open>psutil\<close> module once imported: what each of the three queries does when called.
  \<^verbatim>\<open>cpu_count\<close> returns a number or \<^verbatim>\<open>None\<close>.
\<close>

record psutil =
  cpu_count_logical :: "exn + int option"
  cpu_count_physical :: "exn + int option"
  virtual_memory_total :: "exn + nat"

text \<open>
  Everything the run reads from outside: the \<^verbatim>\<open>platform\<close> strings, \<^verbatim>\<open>sys.maxsize\<close>, the
  outcome of \<^verbatim>\<open>import psutil\<close>, the clock (the \<open>n\<close>-th reading of \<^verbatim>\<open>int(time.time())\<close>), the
  two time formats, the result of \<^verbatim>\<open>glob.glob\<close> on a pattern, what reading a file with
  \<^verbatim>\<open>errors='replace'\<close> gives (\<open>Inl\<close>: an \<^verbatim>\<open>Exception\<close> with that message was raised), and
  whether serialising and writing a document to a file fails.
\<close>

record env =
  platform_system :: string
  platform_node :: string
  platform_release :: string
  platform_version :: string
  platform_machine :: string
  sys_maxsize :: int
  import_psutil :: "exn + psutil"
  time_time :: "nat \<Rightarrow> int"
  time_ctime :: "int \<Rightarrow> string"
  time_strftime :: "int \<Rightarrow> string"
  glob_glob :: "string \<Rightarrow> string list"
  open_read :: "string \<Rightarrow> string + string"
  write_fails :: "string \<Rightarrow> document \<Rightarrow> exn option"

text \<open>What the run changes: clock readings taken, files written, lines printed.\<close>

record world =
  ticks :: nat
  files :: "string \<rightharpoonup> document"
  stdout :: "string list"

definition now :: "env \<Rightarrow> world \<Rightarrow> int \<times> world" where
  "now e w = (time_time e (ticks w), w\<lparr>ticks := Suc (ticks w)\<rparr>)"

definition print :: "string \<Rightarrow> world \<Rightarrow> world" where
  "print line w = w\<lparr>stdout := stdout w @ [line]\<rparr>"

definition write_file :: "env \<Rightarrow> string \<Rightarrow> document \<Rightarrow> world \<Rightarrow> exn + world" where
  "write_file e fname d w =
     (case write_fails e fname d of
        Some x \<Rightarrow> Inl x
      | None \<Rightarrow> Inr (w\<lparr>files := (files w)(fname \<mapsto> d)\<rparr>))"

text \<open>The command line as \<^verbatim>\<open>argparse\<close> returns it, and after \<^verbatim>\<open>main\<close> has set the build name.\<close>

record parsed_args =
  p_log_dir :: string
  p_build_stamp :: string
  p_site_name :: string
  p_build_name :: "string option"
  p_build_id :: string

record args =
  log_dir :: string
  build_stamp :: string
  site_name :: string
  build_name :: string
  build_id :: string

section \<open>Host information\<close>

definition str_opt_int :: "int option \<Rightarrow> string" where
  "str_opt_int v = (case v of None \<Rightarrow> ''None'' | Some i \<Rightarrow> str_int i)"

text \<open>
  \<^verbatim>\<open>int(total / (1024 * 1024))\<close> for a byte count: the true division of two integers gives
  the double nearest to the quotient, ties to even, and raises \<^verbatim>\<open>OverflowError\<close> when that
  is \<open>2^1024\<close> or more; \<^verbatim>\<open>int\<close> then drops the fraction. The divisor is a power of two, so
  the double is the count rounded to 53 significant bits, divided exactly.
\<close>

fun bit_length :: "nat \<Rightarrow> nat" where
  "bit_length n = (if n = 0 then 0 else Suc (bit_length (n div 2)))"

definition round53 :: "nat \<Rightarrow> nat" where
  "round53 x =
     (let k = bit_length x in
      if k \<le> 53 then x
      else
        (let s = k - 53; m = x div 2 ^ s; r = x mod 2 ^ s; h = 2 ^ (s - 1);
             m' = (if r > h \<or> (r = h \<and> odd m) then m + 1 else m)
         in m' * 2 ^ s))"

definition megabytes :: "nat \<Rightarrow> exn + nat" where
  "megabytes bytes =
     (let r = round53 bytes in
      if r \<ge> 2 ^ 1044
      then Inl (OtherError ''OverflowError: integer division result too large for a float'')
      else Inr (r div (1024 * 1024)))"

text \<open>
  The body of the \<^verbatim>\<open>try\<close>: the exception that ended it, if any, and the dictionary as it
  was then.
\<close>

definition try_psutil ::
  "env \<Rightarrow> (string \<times> string) list \<Rightarrow> exn option \<times> (string \<times> string) list" where
  "try_psutil e info =
     (case import_psutil e of
        Inl x \<Rightarrow> (Some x, info)
      | Inr m \<Rightarrow>
          (case cpu_count_logical m of
             Inl x \<Rightarrow> (Some x, info)
           | Inr l \<Rightarrow>
               (let info1 = dict_set info ''NumberOfLogicalCPU'' (str_opt_int l) in
                case cpu_count_physical m of
                  Inl x \<Rightarrow> (Some x, info1)
                | Inr p \<Rightarrow>
                    (let info2 = dict_set info1 ''NumberOfPhysicalCPU'' (str_opt_int p) in
                     case virtual_memory_total m of
                       Inl x \<Rightarrow> (Some x, info2)
                     | Inr bytes \<Rightarrow>
                         (case megabytes bytes of
                            Inl x \<Rightarrow> (Some x, info2)
                          | Inr mb \<Rightarrow>
                              (None, dict_set info2 ''TotalPhysicalMemory'' (str_nat mb)))))))"

definition vendor_fields :: "(string \<times> string) list \<Rightarrow> (string \<times> string) list" where
  "vendor_fields info =
     dict_set (dict_set (dict_set (dict_set (dict_set (dict_set info
       ''VendorString'' ''Unknown'')
       ''VendorID'' ''Unknown'')
       ''FamilyID'' ''0'')
       ''ModelID'' ''0'')
       ''ProcessorCacheSize'' ''0'')
       ''ProcessorClockFrequency'' ''0''"

definition get_system_info :: "env \<Rightarrow> exn + (string \<times> string) list" where
  "get_system_info e =
     (let info =
        dict_set (dict_set (dict_set (dict_set (dict_set (dict_set []
          ''OSName'' (platform_system e))
          ''Hostname'' (platform_node e))
          ''OSRelease'' (platform_release e))
          ''OSVersion'' (platform_version e))
          ''OSPlatform'' (platform_machine e))
          ''Is64Bits'' (if sys_maxsize e > 2 ^ 32 then ''1'' else ''0'')
      in case try_psutil e info of
           (None, info') \<Rightarrow> Inr (vendor_fields info')
         | (Some (ImportError msg), info') \<Rightarrow>
             Inr (vendor_fields
                   (dict_set (dict_set (dict_set info'
                      ''NumberOfLogicalCPU'' ''1'')
                      ''NumberOfPhysicalCPU'' ''1'')
                      ''TotalPhysicalMemory'' ''1024''))
         | (Some (OtherError msg), info') \<Rightarrow> Inl (OtherError msg))"

section \<open>Build report\<close>

text \<open>
  The attributes of the root element, the same in both reports: six fixed ones, then every
  item of the host information in its order.
\<close>

fun set_items :: "(string \<times> string) list \<Rightarrow> (string \<times> string) list \<Rightarrow> (string \<times> string) list" where
  "set_items at [] = at"
| "set_items at ((key, v) # items) = set_items (dict_set at key v) items"

definition site_attrib :: "args \<Rightarrow> (string \<times> string) list \<Rightarrow> (string \<times> string) list" where
  "site_attrib a sys_info =
     set_items
       (dict_set (dict_set (dict_set (dict_set (dict_set (dict_set []
          ''BuildName'' (build_name a))
          ''BuildStamp'' (build_stamp a))
          ''Name'' (site_name a))
          ''Generator'' ''ctest-3.24.2'')
          ''CompilerName'' [])
          ''CompilerVersion'' [])
       sys_info"

definition leaf :: "string \<Rightarrow> string \<Rightarrow> xml" where
  "leaf t s = Element t [] (Some s) []"

text \<open>The tree of \<^verbatim>\<open>Build.xml\<close> for the clock reading \<open>start_time\<close>.\<close>

definition build_site :: "env \<Rightarrow> args \<Rightarrow> (string \<times> string) list \<Rightarrow> int \<Rightarrow> xml" where
  "build_site e a sys_info start_time =
     Element ''Site'' (site_attrib a sys_info) None
       [Element ''Build'' [] None
          [leaf ''StartDateTime'' (time_ctime e start_time),
           leaf ''StartBuildTime'' (str_int start_time),
           leaf ''BuildCommand'' ''polaris_scan'',
           leaf ''EndDateTime'' (time_ctime e start_time),
           leaf ''EndBuildTime'' (str_int start_time),
           leaf ''ElapsedMinutes'' ''0'']]"

definition generate_build_xml ::
  "env \<Rightarrow> args \<Rightarrow> (string \<times> string) list \<Rightarrow> world \<Rightarrow> exn + world" where
  "generate_build_xml e a sys_info w =
     (let (start_time, w1) = now e w in
      case write_file e ''Build.xml'' (PrettyXml (build_site e a sys_info start_time)) w1 of
        Inl x \<Rightarrow> Inl x
      | Inr w2 \<Rightarrow> Inr (print ''Generated Build.xml'' w2))"

section \<open>Test report\<close>

text \<open>A record of the list \<^verbatim>\<open>tests\<close>; the key \<^verbatim>\<open>output\<close> is the field \<open>test_output\<close>.\<close>

record test_data =
  name :: string
  status :: string
  test_output :: string
  path :: string

text \<open>
  Reading one log: the content with the escape sequences removed, or, when an
  \<^verbatim>\<open>Exception\<close> is raised, the message behind a fixed prefix.
\<close>

definition read_content :: "env \<Rightarrow> string \<Rightarrow> string" where
  "read_content e log_file =
     (case open_read e log_file of
        Inr content \<Rightarrow> strip_ansi_codes content
      | Inl msg \<Rightarrow> ''Error reading file: '' @ msg)"

definition test_of :: "env \<Rightarrow> string \<Rightarrow> test_data" where
  "test_of e log_file =
     (let content = read_content e log_file in
      \<lparr>name = basename log_file,
       status = (if contains ''ERROR'' content then ''failed'' else ''passed''),
       test_output = content,
       path = log_file\<rparr>)"

definition list_entry :: "args \<Rightarrow> string \<Rightarrow> xml" where
  "list_entry a log_file = leaf ''Test'' (''./'' @ log_dir a @ ''/'' @ basename log_file)"

text \<open>The first loop: one record and one entry of the test list for each log file.\<close>

fun scan_logs ::
  "env \<Rightarrow> args \<Rightarrow> string list \<Rightarrow> test_data list \<times> xml list \<Rightarrow> test_data list \<times> xml list" where
  "scan_logs e a [] acc = acc"
| "scan_logs e a (log_file # rest) (tests, test_list) =
     scan_logs e a rest (tests @ [test_of e log_file], test_list @ [list_entry a log_file])"

definition named_measurement :: "string \<Rightarrow> string \<Rightarrow> string \<Rightarrow> xml" where
  "named_measurement ty nm v =
     Element ''NamedMeasurement'' [(''type'', ty), (''name'', nm)] None [leaf ''Value'' v]"

text \<open>The body of the second loop: the element of one record.\<close>

definition test_elem :: "args \<Rightarrow> test_data \<Rightarrow> xml" where
  "test_elem a t =
     Element ''Test'' [(''Status'', status t)] None
       [leaf ''Name'' (name t),
        leaf ''Path'' (''./'' @ log_dir a),
        leaf ''FullName'' (''./'' @ log_dir a @ ''/'' @ name t),
        leaf ''FullCommandLine'' (''cat '' @ path t),
        Element ''Results'' [] None
          [named_measurement ''numeric/double'' ''Execution Time'' ''1.0'',
           named_measurement ''text/string'' ''Completion Status'' ''Completed'',
           named_measurement ''text/string'' ''Command Line'' (''cat '' @ path t),
           Element ''Measurement'' [] None [leaf ''Value'' (test_output t)]]]"

text \<open>
  The tree of \<^verbatim>\<open>Test.xml\<close> for the sorted log files and the three clock readings.
\<close>

definition test_site ::
  "env \<Rightarrow> args \<Rightarrow> (string \<times> string) list \<Rightarrow> string list \<Rightarrow> int \<Rightarrow> int \<Rightarrow> int \<Rightarrow> xml" where
  "test_site e a sys_info log_files start_time end1 end2 =
     (let (tests, test_list) = scan_logs e a log_files ([], []) in
      Element ''Site'' (site_attrib a sys_info) None
        [Element ''Testing'' [] None
           ([leaf ''StartDateTime'' (time_strftime e start_time),
             leaf ''StartTestTime'' (str_int start_time),
             Element ''TestList'' [] None test_list]
            @ map (test_elem a) tests
            @ [leaf ''EndDateTime'' (time_strftime e end1),
               leaf ''EndTestTime'' (str_int end2)])])"

text \<open>The pattern handed to \<^verbatim>\<open>glob.glob\<close>.\<close>

definition log_pattern :: "args \<Rightarrow> string" where
  "log_pattern a = path_join (log_dir a) ''*.log''"

definition generate_test_xml ::
  "env \<Rightarrow> args \<Rightarrow> (string \<times> string) list \<Rightarrow> world \<Rightarrow> exn + world" where
  "generate_test_xml e a sys_info w =
     (let (start_time, w1) = now e w;
          log_files = sort (glob_glob e (log_pattern a));
          w2 = (if log_files = []
                then print (''Warning: No log files found in '' @ log_dir a) w1 else w1);
          (end1, w3) = now e w2;
          (end2, w4) = now e w3
      in case write_file e ''Test.xml''
                (Utf8Xml (test_site e a sys_info log_files start_time end1 end2)) w4 of
           Inl x \<Rightarrow> Inl x
         | Inr w5 \<Rightarrow> Inr (print ''Generated Test.xml'' w5))"

section \<open>Completion marker and the run\<close>

definition generate_done_xml :: "env \<Rightarrow> args \<Rightarrow> world \<Rightarrow> exn + world" where
  "generate_done_xml e a w =
     (let (t, w1) = now e w in
      case write_file e ''Done.xml''
             (PrettyXml (Element ''Done'' [] None
                [leaf ''buildId'' (build_id a), leaf ''time'' (str_int t)])) w1 of
        Inl x \<Rightarrow> Inl x
      | Inr w2 \<Rightarrow> Inr (print ''Generated Done.xml'' w2))"

text \<open>
  The build name after \<^verbatim>\<open>if not args.build_name\<close>: \<^verbatim>\<open>None\<close> and the empty string are both
  false.
\<close>

definition effective_build_name :: "string option \<Rightarrow> string \<Rightarrow> string" where
  "effective_build_name given dir =
     (case given of
        None \<Rightarrow> basename (normpath dir)
      | Some n \<Rightarrow> if n = [] then basename (normpath dir) else n)"

definition resolve_args :: "parsed_args \<Rightarrow> args" where
  "resolve_args p =
     \<lparr>log_dir = p_log_dir p, build_stamp = p_build_stamp p, site_name = p_site_name p,
      build_name = effective_build_name (p_build_name p) (p_log_dir p),
      build_id = p_build_id p\<rparr>"

definition main :: "env \<Rightarrow> parsed_args \<Rightarrow> world \<Rightarrow> exn + world" where
  "main e p w =
     (let a = resolve_args p in
      case get_system_info e of
        Inl x \<Rightarrow> Inl x
      | Inr sys_info \<Rightarrow>
          (case generate_build_xml e a sys_info w of
             Inl x \<Rightarrow> Inl x
           | Inr w1 \<Rightarrow>
               (case generate_test_xml e a sys_info w1 of
                  Inl x \<Rightarrow> Inl x
                | Inr w2 \<Rightarrow> generate_done_xml e a w2)))"

section \<open>Reading a report\<close>

text \<open>The children of an element with a given tag, and their texts.\<close>

definition child_elems :: "string \<Rightarrow> xml \<Rightarrow> xml list" where
  "child_elems t el = filter (\<lambda>c. tag c = t) (children el)"

definition child_text :: "string \<Rightarrow> xml \<Rightarrow> string option list" where
  "child_text t el = map elem_text (child_elems t el)"

text \<open>Every tag that occurs in a tree.\<close>

fun all_tags :: "xml \<Rightarrow> string list" where
  "all_tags (Element t at tx cs) = t # concat (map all_tags cs)"

text \<open>
  In a test report: the per-test record elements, the test-list element and the texts of
  its entries; of a record: the status attribute, the name, the command line and the
  embedded log text.
\<close>

definition test_records :: "xml \<Rightarrow> xml list" where
  "test_records site = concat (map (child_elems ''Test'') (child_elems ''Testing'' site))"

definition test_list_elems :: "xml \<Rightarrow> xml list" where
  "test_list_elems site = concat (map (child_elems ''TestList'') (child_elems ''Testing'' site))"

definition test_list_entries :: "xml \<Rightarrow> string option list" where
  "test_list_entries site = concat (map (child_text ''Test'') (test_list_elems site))"

text \<open>The tree of the \<^verbatim>\<open>Test.xml\<close> that a run of the generator has written, if it has.\<close>

definition test_report :: "exn + world \<Rightarrow> xml option" where
  "test_report r =
     (case r of
        Inl x \<Rightarrow> None
      | Inr w \<Rightarrow>
          (case files w ''Test.xml'' of
             Some (Utf8Xml site) \<Rightarrow> Some site
           | Some (PrettyXml site) \<Rightarrow> None
           | None \<Rightarrow> None))"

definition record_status :: "xml \<Rightarrow> string option" where
  "record_status r = map_of (attrib r) ''Status''"

definition record_name :: "xml \<Rightarrow> string option list" where
  "record_name r = child_text ''Name'' r"

definition record_command :: "xml \<Rightarrow> string option list" where
  "record_command r = child_text ''FullCommandLine'' r"

definition record_content :: "xml \<Rightarrow> string option list" where
  "record_content r =
     concat (map (child_text ''Value'')
       (concat (map (child_elems ''Measurement'') (child_elems ''Results'' r))))"

section \<open>The specification's notions\<close>

text \<open>The keys of the host information, in the order the collector sets them.\<close>

definition host_keys :: "string list" where
  "host_keys =
     [''OSName'', ''Hostname'', ''OSRelease'', ''OSVersion'', ''OSPlatform'', ''Is64Bits'',
      ''NumberOfLogicalCPU'', ''NumberOfPhysicalCPU'', ''TotalPhysicalMemory'',
      ''VendorString'', ''VendorID'', ''FamilyID'', ''ModelID'', ''ProcessorCacheSize'',
      ''ProcessorClockFrequency'']"

text \<open>
  The host information with given texts for the two CPU counts and the memory: what the
  collector is to return, up to those three values.
\<close>

definition host_info_with :: "env \<Rightarrow> string \<Rightarrow> string \<Rightarrow> string \<Rightarrow> (string \<times> string) list" where
  "host_info_with e logical physical memory =
     [(''OSName'', platform_system e), (''Hostname'', platform_node e),
      (''OSRelease'', platform_release e), (''OSVersion'', platform_version e),
      (''OSPlatform'', platform_machine e),
      (''Is64Bits'', if sys_maxsize e > 2 ^ 32 then ''1'' else ''0''),
      (''NumberOfLogicalCPU'', logical), (''NumberOfPhysicalCPU'', physical),
      (''TotalPhysicalMemory'', memory),
      (''VendorString'', ''Unknown''), (''VendorID'', ''Unknown''), (''FamilyID'', ''0''),
      (''ModelID'', ''0''), (''ProcessorCacheSize'', ''0''),
      (''ProcessorClockFrequency'', ''0'')]"

text \<open>
  The trailing segment of a path as it is written: the last of its non-empty segments
  between separators, so that a trailing separator does not count; empty when the path
  has no segment.
\<close>

definition trailing_segment :: "string \<Rightarrow> string" where
  "trailing_segment p =
     (let segs = filter (\<lambda>s. s \<noteq> []) (split_sep CHR ''/'' p)
      in if segs = [] then [] else last segs)"

text \<open>A path without \<^verbatim>\<open>.\<close> and \<^verbatim>\<open>..\<close> segments.\<close>

definition dot_free :: "string \<Rightarrow> bool" where
  "dot_free p = (''.'' \<notin> set (split_sep CHR ''/'' p) \<and> ''..'' \<notin> set (split_sep CHR ''/'' p))"

section \<open>Example inputs\<close>

text \<open>
  The text \<^verbatim>\<open>OK\<close> between a colour sequence and a reset: \<^verbatim>\<open>\x1B[31mOK\x1B[0m\<close>. A host with
  \<^verbatim>\<open>psutil\<close>, and a directory \<^verbatim>\<open>logs\<close> of four logs that the file system
  lists out of order: one with an error line, one coloured, one that cannot be opened,
  one clean.
\<close>

definition coloured_ok :: string where
  "coloured_ok = ESC # ''[31mOK'' @ ESC # ''[0m''"

definition demo_psutil :: psutil where
  "demo_psutil =
     \<lparr>cpu_count_logical = Inr (Some 8), cpu_count_physical = Inr None,
      virtual_memory_total = Inr 17179869184\<rparr>"

definition demo_env :: env where
  "demo_env =
     \<lparr>platform_system = ''Linux'', platform_node = ''node01'', platform_release = ''6.1'',
      platform_version = ''#1 SMP'', platform_machine = ''x86_64'',
      sys_maxsize = 9223372036854775807,
      import_psutil = Inr demo_psutil,
      time_time = (\<lambda>n. int n),
      time_ctime = (\<lambda>t. ''Thu Jan  1 00:00:00 1970''),
      time_strftime = (\<lambda>t. ''Jan 01 00:00 UTC''),
      glob_glob = (\<lambda>pat. if pat = ''logs/*.log''
                          then [''logs/c.log'', ''logs/a.log'', ''logs/d.log'', ''logs/b.log'']
                          else []),
      open_read = (\<lambda>p. if p = ''logs/a.log'' then Inr ''ERROR: boom''
                        else if p = ''logs/b.log'' then Inr coloured_ok
                        else if p = ''logs/d.log'' then Inr ''all good''
                        else Inl (''[Errno 13] Permission denied: '' @ p)),
      write_fails = (\<lambda>f d. None)\<rparr>"

definition demo_args :: args where
  "demo_args =
     \<lparr>log_dir = ''logs'', build_stamp = ''20240101-0100-Nightly'', site_name = ''hpc'',
      build_name = ''logs'', build_id = ''42''\<rparr>"

definition demo_parsed :: parsed_args where
  "demo_parsed =
     \<lparr>p_log_dir = ''empty'', p_build_stamp = ''20240101-0100-Nightly'', p_site_name = ''hpc'',
      p_build_name = None, p_build_id = ''42''\<rparr>"

definition demo_world :: world where
  "demo_world = \<lparr>ticks = 0, files = Map.empty, stdout = []\<rparr>"

text \<open>The same host where \<^verbatim>\<open>psutil\<close> is installed and its memory query raises.\<close>

definition denied_env :: env where
  "denied_env =
     demo_env\<lparr>import_psutil :=
       Inr (demo_psutil\<lparr>virtual_memory_total := Inl (OtherError ''PermissionError'')\<rparr>)\<rparr>"

text \<open>The same host where no log opens, the message carrying an escape sequence.\<close>

definition escaped_env :: env where
  "escaped_env = demo_env\<lparr>open_read := (\<lambda>p. Inl (ESC # ''[1mEIO''))\<rparr>"

text \<open>
  A log directory given as \<^verbatim>\<open>run*\<close>, which \<^verbatim>\<open>glob\<close> matches against two directories.
\<close>

definition star_env :: env where
  "star_env =
     demo_env\<lparr>glob_glob := (\<lambda>pat. if pat = ''run*/*.log''
                                   then [''run2/a.log'', ''run1/z.log''] else [])\<rparr>"

definition star_args :: args where
  "star_args = demo_args\<lparr>log_dir := ''run*''\<rparr>"

text \<open>The same host without \<^verbatim>\<open>psutil\<close>.\<close>

definition bare_env :: env where
  "bare_env = demo_env\<lparr>import_psutil := Inl (ImportError ''No module named psutil'')\<rparr>"

section \<open>Facts about the text functions\<close>

declare str_nat.simps [simp del]

declare bit_length.simps [simp del]

lemma contains_iff: "contains sub s \<longleftrightarrow> (\<exists>ps ss. s = ps @ sub @ ss)"
proof -
  have "contains sub s \<longleftrightarrow> sublist sub s"
    by (induction s) (auto simp: sublist_Cons_right)
  then show ?thesis
    by (simp add: sublist_def)
qed

section \<open>Facts about the test report\<close>

lemma scan_logs_eq:
  "scan_logs e a ps (ts, es) = (ts @ map (test_of e) ps, es @ map (list_entry a) ps)"
  by (induction ps arbitrary: ts es) auto

lemma filter_tag_map:
  "(\<And>x. tag (f x) = t') \<Longrightarrow>
     filter (\<lambda>c. tag c = t) (map f xs) = (if t' = t then map f xs else [])"
  by (induction xs) auto

lemma tag_test_elem: "tag ((test_elem a \<circ> f) x) = ''Test''"
  by (simp add: test_elem_def)

lemma tag_list_entry: "tag (list_entry a x) = ''Test''"
  by (simp add: list_entry_def leaf_def)

lemma test_records_test_site:
  "test_records (test_site e a si lf t0 t1 t2) = map (test_elem a) (map (test_of e) lf)"
  by (simp add: test_records_def test_site_def scan_logs_eq child_elems_def leaf_def
      filter_tag_map [where f = "test_elem a \<circ> test_of e", OF tag_test_elem])

lemma test_list_elems_test_site:
  "test_list_elems (test_site e a si lf t0 t1 t2) =
     [Element ''TestList'' [] None (map (list_entry a) lf)]"
  by (simp add: test_list_elems_def test_site_def scan_logs_eq child_elems_def leaf_def
      filter_tag_map [where f = "test_elem a \<circ> test_of e", OF tag_test_elem])

lemma test_list_entries_test_site:
  "test_list_entries (test_site e a si lf t0 t1 t2) =
     map (\<lambda>p. Some (''./'' @ log_dir a @ ''/'' @ basename p)) lf"
  by (simp add: test_list_entries_def test_list_elems_test_site child_text_def child_elems_def
      filter_tag_map [where f = "list_entry a", OF tag_list_entry])
     (simp add: list_entry_def leaf_def)

lemma record_status_test_elem: "record_status (test_elem a t) = Some (status t)"
  by (simp add: record_status_def test_elem_def)

lemma record_name_test_elem: "record_name (test_elem a t) = [Some (name t)]"
  by (simp add: record_name_def test_elem_def child_elems_def child_text_def leaf_def)

lemma record_command_test_elem: "record_command (test_elem a t) = [Some (''cat '' @ path t)]"
  by (simp add: record_command_def test_elem_def child_elems_def child_text_def leaf_def)

lemma record_content_test_elem: "record_content (test_elem a t) = [Some (test_output t)]"
  by (simp add: record_content_def test_elem_def child_elems_def child_text_def leaf_def
      named_measurement_def)

lemma generate_test_xml_Inr:
  assumes "generate_test_xml e a si w = Inr w'"
  shows "files w' ''Test.xml'' =
           Some (Utf8Xml (test_site e a si (sort (glob_glob e (log_pattern a)))
              (time_time e (ticks w)) (time_time e (Suc (ticks w)))
              (time_time e (Suc (Suc (ticks w))))))"
  using assms
  by (auto simp: generate_test_xml_def log_pattern_def now_def print_def write_file_def Let_def
      split: option.splits if_splits)

lemma generate_test_xml_total:
  assumes "\<forall>d. write_fails e ''Test.xml'' d = None"
  shows "\<exists>w'. generate_test_xml e a si w = Inr w'"
  using assms
  by (auto simp: generate_test_xml_def now_def print_def write_file_def Let_def
      split: option.splits if_splits)

lemma record_for_path:
  assumes "generate_test_xml e a si w = Inr w'" and "p \<in> set (glob_glob e (log_pattern a))"
  shows "\<exists>site. files w' ''Test.xml'' = Some (Utf8Xml site) \<and>
           test_elem a (test_of e p) \<in> set (test_records site)"
proof -
  let ?lf = "sort (glob_glob e (log_pattern a))"
  let ?site = "test_site e a si ?lf (time_time e (ticks w)) (time_time e (Suc (ticks w)))
                 (time_time e (Suc (Suc (ticks w))))"
  have "files w' ''Test.xml'' = Some (Utf8Xml ?site)"
    using assms(1) by (rule generate_test_xml_Inr)
  moreover have "test_elem a (test_of e p) \<in> set (test_records ?site)"
    using assms(2) by (simp add: test_records_test_site)
  ultimately show ?thesis
    by blast
qed

lemma prefix_has_no_error:
  "contains ''ERROR'' (''Error reading file: '' @ msg) = contains ''ERROR'' msg"
  by simp

subsection \<open>The example run\<close>

lemma strip_coloured_ok: "strip_ansi_codes coloured_ok = ''OK''"
  by (simp add: coloured_ok_def strip_ansi_codes_def ansi_escape_def ESC_def in_range_def)

lemma strip_plain:
  "strip_ansi_codes ''ERROR: boom'' = ''ERROR: boom''"
  "strip_ansi_codes ''all good'' = ''all good''"
  by (simp_all add: strip_ansi_codes_def ansi_escape_def ESC_def in_range_def)

lemma strip_escaped_message:
  "strip_ansi_codes (''Error reading file: '' @ ESC # ''[1mEIO'') = ''Error reading file: EIO''"
  by (simp add: strip_ansi_codes_def ansi_escape_def ESC_def in_range_def)

lemma demo_sorted:
  "sort (glob_glob demo_env (log_pattern demo_args)) =
     [''logs/a.log'', ''logs/b.log'', ''logs/c.log'', ''logs/d.log'']"
  by (simp add: demo_env_def demo_args_def log_pattern_def path_join_def)

lemma demo_contents:
  "map (read_content demo_env) [''logs/a.log'', ''logs/b.log'', ''logs/c.log'', ''logs/d.log''] =
     [''ERROR: boom'', ''OK'',
      ''Error reading file: [Errno 13] Permission denied: logs/c.log'', ''all good'']"
  by (simp add: read_content_def demo_env_def strip_coloured_ok strip_plain)

lemma demo_total: "\<exists>w'. generate_test_xml demo_env demo_args [] demo_world = Inr w'"
  by (rule generate_test_xml_total) (simp add: demo_env_def)

lemma demo_records:
  assumes "generate_test_xml demo_env demo_args [] demo_world = Inr w'"
    and "files w' ''Test.xml'' = Some (Utf8Xml site)"
  shows "test_records site =
           map (test_elem demo_args) (map (test_of demo_env)
             [''logs/a.log'', ''logs/b.log'', ''logs/c.log'', ''logs/d.log''])"
  using generate_test_xml_Inr [OF assms(1)] assms(2)
  by (simp add: test_records_test_site demo_sorted)

lemma demo_record_contents:
  assumes "generate_test_xml demo_env demo_args [] demo_world = Inr w'"
    and "files w' ''Test.xml'' = Some (Utf8Xml site)"
  shows "map record_content (test_records site) =
           [[Some ''ERROR: boom''], [Some ''OK''],
            [Some ''Error reading file: [Errno 13] Permission denied: logs/c.log''],
            [Some ''all good'']]"
  using demo_contents
  by (simp add: demo_records [OF assms] record_content_test_elem test_of_def Let_def)

lemma demo_record_statuses:
  assumes "generate_test_xml demo_env demo_args [] demo_world = Inr w'"
    and "files w' ''Test.xml'' = Some (Utf8Xml site)"
  shows "map record_status (test_records site) =
           [Some ''failed'', Some ''passed'', Some ''passed'', Some ''passed'']"
  using demo_contents
  by (simp add: demo_records [OF assms] record_status_test_elem test_of_def Let_def)

section \<open>Classification of a log\<close>

text \<open>
  C1. In a generated test report there is one record for each log file found, and the
  status of every record is \<^verbatim>\<open>failed\<close> if the text \<^verbatim>\<open>ERROR\<close>, in capitals, occurs somewhere in
  the content the record embeds, and \<^verbatim>\<open>passed\<close> otherwise.
\<close>

theorem status_from_content:
  assumes "generate_test_xml e a si w = Inr w'"
  shows "\<exists>site. files w' ''Test.xml'' = Some (Utf8Xml site) \<and>
           length (test_records site) = length (glob_glob e (log_pattern a)) \<and>
           (\<forall>r \<in> set (test_records site). \<exists>content.
              record_content r = [Some content] \<and>
              record_status r =
                Some (if \<exists>ps ss. content = ps @ ''ERROR'' @ ss then ''failed'' else ''passed''))"
proof -
  let ?lf = "sort (glob_glob e (log_pattern a))"
  let ?site = "test_site e a si ?lf (time_time e (ticks w)) (time_time e (Suc (ticks w)))
                 (time_time e (Suc (Suc (ticks w))))"
  have f: "files w' ''Test.xml'' = Some (Utf8Xml ?site)"
    using assms by (rule generate_test_xml_Inr)
  have r: "test_records ?site = map (test_elem a) (map (test_of e) ?lf)"
    by (rule test_records_test_site)
  have "\<exists>content. record_content x = [Some content] \<and>
          record_status x =
            Some (if \<exists>ps ss. content = ps @ ''ERROR'' @ ss then ''failed'' else ''passed'')"
    if "x \<in> set (test_records ?site)" for x
  proof -
    from that r obtain p where x: "x = test_elem a (test_of e p)"
      by auto
    show ?thesis
      unfolding x record_content_test_elem record_status_test_elem
      by (simp add: test_of_def Let_def contains_iff)
  qed
  with f r show ?thesis
    by (intro exI [of _ ?site]) simp
qed

text \<open>
  The example run: the log \<^verbatim>\<open>ERROR: boom\<close> is \<^verbatim>\<open>failed\<close>, the log \<^verbatim>\<open>all good\<close> is \<^verbatim>\<open>passed\<close>.
\<close>

theorem status_from_content_witness:
  "\<exists>w' site. generate_test_xml demo_env demo_args [] demo_world = Inr w' \<and>
     files w' ''Test.xml'' = Some (Utf8Xml site) \<and>
     length (test_records site) = 4 \<and>
     map record_content (test_records site) =
       [[Some ''ERROR: boom''], [Some ''OK''],
        [Some ''Error reading file: [Errno 13] Permission denied: logs/c.log''],
        [Some ''all good'']] \<and>
     map record_status (test_records site) =
       [Some ''failed'', Some ''passed'', Some ''passed'', Some ''passed''] \<and>
     (\<forall>r \<in> set (test_records site). \<exists>content.
        record_content r = [Some content] \<and>
        record_status r =
          Some (if \<exists>ps ss. content = ps @ ''ERROR'' @ ss then ''failed'' else ''passed''))"
proof -
  from demo_total obtain w' where
    g: "generate_test_xml demo_env demo_args [] demo_world = Inr w'"
    by blast
  from status_from_content [OF g] obtain site where
    s: "files w' ''Test.xml'' = Some (Utf8Xml site)" and
    n: "length (test_records site) = length (glob_glob demo_env (log_pattern demo_args))" and
    a: "\<forall>r \<in> set (test_records site). \<exists>content.
        record_content r = [Some content] \<and>
        record_status r =
          Some (if \<exists>ps ss. content = ps @ ''ERROR'' @ ss then ''failed'' else ''passed'')"
    by blast
  have l: "length (test_records site) = 4"
    unfolding n by (simp add: demo_env_def demo_args_def log_pattern_def path_join_def)
  show ?thesis
    by (intro exI [of _ w'] exI [of _ site] conjI)
       (fact g s l a demo_record_contents [OF g s] demo_record_statuses [OF g s])+
qed



section \<open>Logs that cannot be read\<close>

text \<open>
  C4. Whatever opening the logs does, the test report is generated as long as writing
  \<^verbatim>\<open>Test.xml\<close> itself does not fail: it has one record for each log file found, in order, and
  the record of a file whose reading raised carries the text \<^verbatim>\<open>Error reading file: \<close> with the
  message; the records of the other files carry their stripped content.
\<close>

theorem unreadable_log_tolerated:
  assumes "\<forall>d. write_fails e ''Test.xml'' d = None"
  shows "\<exists>w' site. generate_test_xml e a si w = Inr w' \<and>
           files w' ''Test.xml'' = Some (Utf8Xml site) \<and>
           map record_command (test_records site) =
             map (\<lambda>p. [Some (''cat '' @ p)]) (sort (glob_glob e (log_pattern a))) \<and>
           map record_content (test_records site) =
             map (\<lambda>p. [Some (case open_read e p of
                               Inl msg \<Rightarrow> ''Error reading file: '' @ msg
                             | Inr raw \<Rightarrow> strip_ansi_codes raw)])
               (sort (glob_glob e (log_pattern a)))"
proof -
  from generate_test_xml_total [OF assms] obtain w' where
    g: "generate_test_xml e a si w = Inr w'"
    by blast
  let ?lf = "sort (glob_glob e (log_pattern a))"
  let ?site = "test_site e a si ?lf (time_time e (ticks w)) (time_time e (Suc (ticks w)))
                 (time_time e (Suc (Suc (ticks w))))"
  have f: "files w' ''Test.xml'' = Some (Utf8Xml ?site)"
    using g by (rule generate_test_xml_Inr)
  have c: "map record_command (test_records ?site) = map (\<lambda>p. [Some (''cat '' @ p)]) ?lf"
    by (simp add: test_records_test_site record_command_test_elem test_of_def Let_def)
  have o: "map record_content (test_records ?site) =
             map (\<lambda>p. [Some (case open_read e p of
                               Inl msg \<Rightarrow> ''Error reading file: '' @ msg
                             | Inr raw \<Rightarrow> strip_ansi_codes raw)]) ?lf"
    by (simp add: test_records_test_site record_content_test_elem test_of_def Let_def
        read_content_def)
  from g f c o show ?thesis
    by blast
qed

text \<open>The example run: \<^verbatim>\<open>logs/c.log\<close> cannot be opened, and all four records are there.\<close>

theorem unreadable_log_tolerated_witness:
  "(\<forall>d. write_fails demo_env ''Test.xml'' d = None) \<and>
   open_read demo_env ''logs/c.log'' = Inl ''[Errno 13] Permission denied: logs/c.log'' \<and>
   (\<exists>w' site. generate_test_xml demo_env demo_args [] demo_world = Inr w' \<and>
      files w' ''Test.xml'' = Some (Utf8Xml site) \<and>
      map record_command (test_records site) =
        [[Some ''cat logs/a.log''], [Some ''cat logs/b.log''], [Some ''cat logs/c.log''],
         [Some ''cat logs/d.log'']] \<and>
      map record_content (test_records site) =
        [[Some ''ERROR: boom''], [Some ''OK''],
         [Some ''Error reading file: [Errno 13] Permission denied: logs/c.log''],
         [Some ''all good'']])"
proof -
  have h: "\<forall>d. write_fails demo_env ''Test.xml'' d = None"
    by (simp add: demo_env_def)
  have o: "open_read demo_env ''logs/c.log'' = Inl ''[Errno 13] Permission denied: logs/c.log''"
    by (simp add: demo_env_def)
  from unreadable_log_tolerated [OF h, of demo_args "[]" demo_world] obtain w' site where
    g: "generate_test_xml demo_env demo_args [] demo_world = Inr w'" and
    s: "files w' ''Test.xml'' = Some (Utf8Xml site)" and
    c: "map record_command (test_records site) =
          map (\<lambda>p. [Some (''cat '' @ p)]) (sort (glob_glob demo_env (log_pattern demo_args)))"
    by blast
  have c': "map record_command (test_records site) =
        [[Some ''cat logs/a.log''], [Some ''cat logs/b.log''], [Some ''cat logs/c.log''],
         [Some ''cat logs/d.log'']]"
    unfolding c demo_sorted by simp
  show ?thesis
    by (intro exI [of _ w'] exI [of _ site] conjI)
       (fact h o g s c' demo_record_contents [OF g s])+
qed

text \<open>
  C9. The record of a log whose reading raised embeds exactly \<^verbatim>\<open>Error reading file: \<close>
  followed by the message, with no escape sequence removed, and its status follows from
  that text by the same rule; the prefix has no \<^verbatim>\<open>ERROR\<close> in it, so the record is \<^verbatim>\<open>passed\<close>
  whenever the message has none.
\<close>

theorem unreadable_log_record:
  assumes "generate_test_xml e a si w = Inr w'"
    and "p \<in> set (glob_glob e (log_pattern a))"
    and "open_read e p = Inl msg"
  shows "\<exists>site r. files w' ''Test.xml'' = Some (Utf8Xml site) \<and> r \<in> set (test_records site) \<and>
           record_command r = [Some (''cat '' @ p)] \<and>
           record_content r = [Some (''Error reading file: '' @ msg)] \<and>
           record_status r =
             Some (if \<exists>ps ss. ''Error reading file: '' @ msg = ps @ ''ERROR'' @ ss
                   then ''failed'' else ''passed'') \<and>
           ((\<nexists>ps ss. msg = ps @ ''ERROR'' @ ss) \<longrightarrow> record_status r = Some ''passed'')"
proof -
  from record_for_path [OF assms(1,2)] obtain site where
    s: "files w' ''Test.xml'' = Some (Utf8Xml site)" and
    r: "test_elem a (test_of e p) \<in> set (test_records site)"
    by blast
  let ?r = "test_elem a (test_of e p)"
  have c: "test_output (test_of e p) = ''Error reading file: '' @ msg"
    using assms(3) by (simp add: test_of_def read_content_def Let_def)
  have st0: "status (test_of e p) =
      (if contains ''ERROR'' (''Error reading file: '' @ msg) then ''failed'' else ''passed'')"
    using assms(3) by (simp add: test_of_def read_content_def Let_def)
  have st: "status (test_of e p) =
      (if \<exists>ps ss. ''Error reading file: '' @ msg = ps @ ''ERROR'' @ ss
       then ''failed'' else ''passed'')"
    unfolding st0 contains_iff ..
  have ps: "(\<nexists>ps ss. msg = ps @ ''ERROR'' @ ss) \<longrightarrow> status (test_of e p) = ''passed''"
    unfolding st0 prefix_has_no_error by (simp add: contains_iff)
  have "record_command ?r = [Some (''cat '' @ p)]"
    by (simp add: record_command_test_elem test_of_def Let_def)
  with s r c st ps show ?thesis
    by (intro exI [of _ site] exI [of _ ?r])
       (simp add: record_content_test_elem record_status_test_elem)
qed

text \<open>
  A run in which the message holds an escape sequence: the record keeps it, where
  stripping would have removed it, and is \<^verbatim>\<open>passed\<close>.
\<close>

theorem unreadable_log_record_witness:
  "\<exists>w' site r. generate_test_xml escaped_env demo_args [] demo_world = Inr w' \<and>
     ''logs/c.log'' \<in> set (glob_glob escaped_env (log_pattern demo_args)) \<and>
     open_read escaped_env ''logs/c.log'' = Inl (ESC # ''[1mEIO'') \<and>
     (\<nexists>ps ss. ESC # ''[1mEIO'' = ps @ ''ERROR'' @ ss) \<and>
     files w' ''Test.xml'' = Some (Utf8Xml site) \<and> r \<in> set (test_records site) \<and>
     record_command r = [Some ''cat logs/c.log''] \<and>
     record_content r = [Some (''Error reading file: '' @ ESC # ''[1mEIO'')] \<and>
     strip_ansi_codes (''Error reading file: '' @ ESC # ''[1mEIO'') = ''Error reading file: EIO'' \<and>
     record_status r = Some ''passed''"
proof -
  have "\<exists>w'. generate_test_xml escaped_env demo_args [] demo_world = Inr w'"
    by (rule generate_test_xml_total) (simp add: escaped_env_def demo_env_def)
  then obtain w' where g: "generate_test_xml escaped_env demo_args [] demo_world = Inr w'"
    by blast
  have p: "''logs/c.log'' \<in> set (glob_glob escaped_env (log_pattern demo_args))"
    by (simp add: escaped_env_def demo_env_def demo_args_def log_pattern_def path_join_def)
  have o: "open_read escaped_env ''logs/c.log'' = Inl (ESC # ''[1mEIO'')"
    by (simp add: escaped_env_def)
  have "\<not> contains ''ERROR'' (ESC # ''[1mEIO'')"
    by (simp add: ESC_def)
  then have n: "\<nexists>ps ss. ESC # ''[1mEIO'' = ps @ ''ERROR'' @ ss"
    unfolding contains_iff .
  from unreadable_log_record [OF g p o] n obtain site r where
    "files w' ''Test.xml'' = Some (Utf8Xml site)" "r \<in> set (test_records site)"
    "record_command r = [Some (''cat '' @ ''logs/c.log'')]"
    "record_content r = [Some (''Error reading file: '' @ ESC # ''[1mEIO'')]"
    "record_status r = Some ''passed''"
    by blast
  with g p o n strip_escaped_message show ?thesis
    by (intro exI [of _ w'] exI [of _ site] exI [of _ r]) simp
qed

section \<open>Order of the logs\<close>

lemma append_le_append: "(d @ x \<le> d @ y) \<longleftrightarrow> (x \<le> (y :: string))"
  by (induction d) auto

lemma sort_map_append:
  "sort (map ((@) d) names) = map ((@) d) (sort (names :: string list))"
proof (rule properties_for_sort)
  show "mset (map ((@) d) (sort names)) = mset (map ((@) d) names)"
    by simp
  show "sorted (map ((@) d) (sort names))"
    by (simp add: sorted_map append_le_append)
qed

lemma sort_permuted: "mset xs = mset ys \<Longrightarrow> sort xs = sort (ys :: string list)"
  by (rule properties_for_sort) simp_all

lemma takeWhile_no_sep:
  "CHR ''/'' \<notin> set n \<Longrightarrow> takeWhile (\<lambda>c. c \<noteq> CHR ''/'') (rev n @ rest) =
     rev n @ takeWhile (\<lambda>c. c \<noteq> CHR ''/'') rest"
  by (rule takeWhile_append2) auto

lemma basename_no_sep: "CHR ''/'' \<notin> set n \<Longrightarrow> basename n = n"
  unfolding basename_def
  by (subst takeWhile_eq_all_conv [THEN iffD2]) auto

lemma basename_append:
  assumes "d = [] \<or> last d = CHR ''/''" and "CHR ''/'' \<notin> set n"
  shows "basename (d @ n) = n"
proof (cases "d = []")
  case True
  with basename_no_sep [OF assms(2)] show ?thesis
    by simp
next
  case False
  with assms(1) obtain d' where d: "d = d' @ ''/''"
    by (metis append_butlast_last_id)
  have "takeWhile (\<lambda>c. c \<noteq> CHR ''/'') (rev n @ CHR ''/'' # rev d') = rev n"
    by (simp add: takeWhile_no_sep [OF assms(2)])
  then show ?thesis
    by (simp add: basename_def d)
qed


lemma test_site_glob:
  "test_site (e\<lparr>glob_glob := g\<rparr>) a si lf t0 t1 t2 = test_site e a si lf t0 t1 t2"
  by (simp add: test_site_def scan_logs_eq test_of_def read_content_def)

lemma now_glob: "now (e\<lparr>glob_glob := g\<rparr>) w = now e w"
  by (simp add: now_def)

lemma write_file_glob: "write_file (e\<lparr>glob_glob := g\<rparr>) f d w = write_file e f d w"
  by (simp add: write_file_def)

lemma glob_order_irrelevant:
  assumes "mset found' = mset (glob_glob e (log_pattern a))"
  shows "generate_test_xml (e\<lparr>glob_glob := (glob_glob e)(log_pattern a := found')\<rparr>) a si w =
         generate_test_xml e a si w"
proof -
  have "sort found' = sort (glob_glob e (log_pattern a))"
    using assms by (rule sort_permuted)
  then show ?thesis
    by (simp add: generate_test_xml_def now_glob write_file_glob test_site_glob)
qed

lemma test_report_Inr:
  assumes "generate_test_xml e a si w = Inr w'"
  shows "test_report (generate_test_xml e a si w) =
           Some (test_site e a si (sort (glob_glob e (log_pattern a)))
              (time_time e (ticks w)) (time_time e (Suc (ticks w)))
              (time_time e (Suc (Suc (ticks w)))))"
  using generate_test_xml_Inr [OF assms] by (simp add: test_report_def assms)

text \<open>
  C3, as amended. The entries of the test list and the records are in the lexicographic
  order of the paths that \<^verbatim>\<open>glob\<close> returns, as the logs are processed, and any other order of
  enumeration of the same paths gives the same run. Where the paths are one common
  prefix, empty or ending in a separator, followed by the file names, this is the
  lexicographic order of the file names.
\<close>

theorem sorted_path_order:
  assumes "generate_test_xml e a si w = Inr w'"
  shows "\<exists>site. files w' ''Test.xml'' = Some (Utf8Xml site) \<and>
           test_list_entries site =
             map (\<lambda>p. Some (''./'' @ log_dir a @ ''/'' @ basename p))
               (sort (glob_glob e (log_pattern a))) \<and>
           map record_name (test_records site) =
             map (\<lambda>p. [Some (basename p)]) (sort (glob_glob e (log_pattern a))) \<and>
           map record_command (test_records site) =
             map (\<lambda>p. [Some (''cat '' @ p)]) (sort (glob_glob e (log_pattern a))) \<and>
           (\<forall>found'. mset found' = mset (glob_glob e (log_pattern a)) \<longrightarrow>
              generate_test_xml (e\<lparr>glob_glob := (glob_glob e)(log_pattern a := found')\<rparr>) a si w
                = generate_test_xml e a si w) \<and>
           (\<forall>d names.
              glob_glob e (log_pattern a) = map ((@) d) names \<and>
              (d = [] \<or> last d = CHR ''/'') \<and> (\<forall>n \<in> set names. CHR ''/'' \<notin> set n) \<longrightarrow>
              test_list_entries site =
                map (\<lambda>n. Some (''./'' @ log_dir a @ ''/'' @ n)) (sort names) \<and>
              map record_name (test_records site) = map (\<lambda>n. [Some n]) (sort names))"
proof -
  let ?lf = "sort (glob_glob e (log_pattern a))"
  let ?site = "test_site e a si ?lf (time_time e (ticks w)) (time_time e (Suc (ticks w)))
                 (time_time e (Suc (Suc (ticks w))))"
  have f: "files w' ''Test.xml'' = Some (Utf8Xml ?site)"
    using assms by (rule generate_test_xml_Inr)
  have 1: "test_list_entries ?site = map (\<lambda>p. Some (''./'' @ log_dir a @ ''/'' @ basename p)) ?lf"
    by (rule test_list_entries_test_site)
  have 2: "map record_name (test_records ?site) = map (\<lambda>p. [Some (basename p)]) ?lf"
    by (simp add: test_records_test_site record_name_test_elem test_of_def Let_def)
  have 3: "map record_command (test_records ?site) = map (\<lambda>p. [Some (''cat '' @ p)]) ?lf"
    by (simp add: test_records_test_site record_command_test_elem test_of_def Let_def)
  have 4: "\<forall>found'. mset found' = mset (glob_glob e (log_pattern a)) \<longrightarrow>
              generate_test_xml (e\<lparr>glob_glob := (glob_glob e)(log_pattern a := found')\<rparr>) a si w
                = generate_test_xml e a si w"
    using glob_order_irrelevant by blast
  have 5: "test_list_entries ?site =
             map (\<lambda>n. Some (''./'' @ log_dir a @ ''/'' @ n)) (sort names) \<and>
           map record_name (test_records ?site) = map (\<lambda>n. [Some n]) (sort names)"
    if h: "glob_glob e (log_pattern a) = map ((@) d) names \<and>
           (d = [] \<or> last d = CHR ''/'') \<and> (\<forall>n \<in> set names. CHR ''/'' \<notin> set n)"
    for d names
  proof -
    have lf: "?lf = map ((@) d) (sort names)"
      using h sort_map_append [of d names] by simp
    have b: "basename (d @ n) = n" if "n \<in> set (sort names)" for n
      using that h by (simp add: basename_append)
    have e1: "map (\<lambda>p. Some (''./'' @ log_dir a @ ''/'' @ basename p)) ?lf =
               map (\<lambda>n. Some (''./'' @ log_dir a @ ''/'' @ n)) (sort names)"
      unfolding lf using b by simp
    have e2: "map (\<lambda>p. [Some (basename p)]) ?lf = map (\<lambda>n. [Some n]) (sort names)"
      unfolding lf using b by simp
    show ?thesis
      by (rule conjI [OF trans [OF 1 e1] trans [OF 2 e2]])
  qed
  show ?thesis
    by (intro exI [of _ ?site] conjI allI impI) (use f 1 2 3 4 5 in blast)+
qed

text \<open>The example run: the enumeration \<^verbatim>\<open>c, a, d, b\<close> and another one give \<^verbatim>\<open>a, b, c, d\<close>.\<close>

theorem sorted_path_order_witness:
  "glob_glob demo_env (log_pattern demo_args) =
     map ((@) ''logs/'') [''c.log'', ''a.log'', ''d.log'', ''b.log''] \<and>
   (\<exists>w' site. generate_test_xml demo_env demo_args [] demo_world = Inr w' \<and>
      files w' ''Test.xml'' = Some (Utf8Xml site) \<and>
      test_list_entries site =
        [Some ''./logs/a.log'', Some ''./logs/b.log'', Some ''./logs/c.log'', Some ''./logs/d.log''] \<and>
      map record_name (test_records site) =
        [[Some ''a.log''], [Some ''b.log''], [Some ''c.log''], [Some ''d.log'']] \<and>
      map record_command (test_records site) =
        [[Some ''cat logs/a.log''], [Some ''cat logs/b.log''], [Some ''cat logs/c.log''],
         [Some ''cat logs/d.log'']] \<and>
      generate_test_xml
        (demo_env\<lparr>glob_glob := (glob_glob demo_env)
           (log_pattern demo_args := [''logs/a.log'', ''logs/b.log'', ''logs/d.log'', ''logs/c.log''])\<rparr>)
        demo_args [] demo_world = Inr w')"
proof -
  have h1: "glob_glob demo_env (log_pattern demo_args) =
      map ((@) ''logs/'') [''c.log'', ''a.log'', ''d.log'', ''b.log'']"
    by (simp add: demo_env_def demo_args_def log_pattern_def path_join_def)
  have h2: "''logs/'' = [] \<or> last ''logs/'' = CHR ''/''"
    by simp
  have h3: "\<forall>n \<in> set [''c.log'', ''a.log'', ''d.log'', ''b.log'']. CHR ''/'' \<notin> set n"
    by simp
  from demo_total obtain w' where
    g: "generate_test_xml demo_env demo_args [] demo_world = Inr w'"
    by blast
  have s: "sort [''c.log'', ''a.log'', ''d.log'', ''b.log''] =
             [''a.log'', ''b.log'', ''c.log'', ''d.log'']"
    by simp
  have m: "mset [''logs/a.log'', ''logs/b.log'', ''logs/d.log'', ''logs/c.log''] =
           mset (glob_glob demo_env (log_pattern demo_args))"
    unfolding h1 by (simp add: add.commute add.left_commute)
  from sorted_path_order [OF g] obtain site where
    f: "files w' ''Test.xml'' = Some (Utf8Xml site)" and
    c: "map record_command (test_records site) =
          map (\<lambda>p. [Some (''cat '' @ p)]) (sort (glob_glob demo_env (log_pattern demo_args)))" and
    i: "\<forall>found'. mset found' = mset (glob_glob demo_env (log_pattern demo_args)) \<longrightarrow>
          generate_test_xml
            (demo_env\<lparr>glob_glob := (glob_glob demo_env)(log_pattern demo_args := found')\<rparr>)
            demo_args [] demo_world = generate_test_xml demo_env demo_args [] demo_world" and
    n: "\<forall>d names.
          glob_glob demo_env (log_pattern demo_args) = map ((@) d) names \<and>
          (d = [] \<or> last d = CHR ''/'') \<and> (\<forall>n \<in> set names. CHR ''/'' \<notin> set n) \<longrightarrow>
          test_list_entries site =
            map (\<lambda>n. Some (''./'' @ log_dir demo_args @ ''/'' @ n)) (sort names) \<and>
          map record_name (test_records site) = map (\<lambda>n. [Some n]) (sort names)"
    by (elim exE conjE)
  note lr = n [THEN spec, THEN spec, THEN mp, OF conjI [OF h1 conjI [OF h2 h3]]]
  have l': "test_list_entries site =
      [Some ''./logs/a.log'', Some ''./logs/b.log'', Some ''./logs/c.log'', Some ''./logs/d.log'']"
    unfolding lr [THEN conjunct1] s by (simp add: demo_args_def)
  have r': "map record_name (test_records site) =
      [[Some ''a.log''], [Some ''b.log''], [Some ''c.log''], [Some ''d.log'']]"
    unfolding lr [THEN conjunct2] s by simp
  have c': "map record_command (test_records site) =
        [[Some ''cat logs/a.log''], [Some ''cat logs/b.log''], [Some ''cat logs/c.log''],
         [Some ''cat logs/d.log'']]"
    unfolding c demo_sorted by simp
  have i': "generate_test_xml
        (demo_env\<lparr>glob_glob := (glob_glob demo_env)
           (log_pattern demo_args := [''logs/a.log'', ''logs/b.log'', ''logs/d.log'', ''logs/c.log''])\<rparr>)
        demo_args [] demo_world = Inr w'"
    using i m g by simp
  show ?thesis
    by (intro exI [of _ w'] exI [of _ site] conjI) (fact h1 g f l' r' c' i')+
qed

lemma star_total: "\<exists>w'. generate_test_xml star_env star_args [] demo_world = Inr w'"
  by (rule generate_test_xml_total) (simp add: star_env_def demo_env_def)

lemma star_sorted:
  "sort (glob_glob star_env (log_pattern star_args)) = [''run1/z.log'', ''run2/a.log'']"
  by (simp add: star_env_def star_args_def demo_args_def log_pattern_def path_join_def)

lemma star_basenames: "basename ''run1/z.log'' = ''z.log''" "basename ''run2/a.log'' = ''a.log''"
  by (simp_all add: basename_def)

text \<open>
  C3 as stated fails where the log directory is given with a wildcard: for \<^verbatim>\<open>run*\<close> and the
  logs \<^verbatim>\<open>run1/z.log\<close> and \<^verbatim>\<open>run2/a.log\<close> the paths are sorted, and \<^verbatim>\<open>z.log\<close> comes before
  \<^verbatim>\<open>a.log\<close> in the records and in the test list.
\<close>

theorem sorted_path_order_counterexample:
  "map_option (map record_name \<circ> test_records)
     (test_report (generate_test_xml star_env star_args [] demo_world)) =
       Some [[Some ''z.log''], [Some ''a.log'']] \<and>
   map_option test_list_entries
     (test_report (generate_test_xml star_env star_args [] demo_world)) =
       Some [Some ''./run*/z.log'', Some ''./run*/a.log''] \<and>
   \<not> sorted [''z.log'', ''a.log'']"
proof -
  from star_total obtain w' where
    g: "generate_test_xml star_env star_args [] demo_world = Inr w'"
    by blast
  have l: "log_dir star_args = ''run*''"
    by (simp add: star_args_def)
  have 1: "map_option (map record_name \<circ> test_records)
     (test_report (generate_test_xml star_env star_args [] demo_world)) =
       Some [[Some ''z.log''], [Some ''a.log'']]"
    unfolding test_report_Inr [OF g] star_sorted
    by (simp add: test_records_test_site record_name_test_elem test_of_def Let_def
        star_basenames)
  have 2: "map_option test_list_entries
     (test_report (generate_test_xml star_env star_args [] demo_world)) =
       Some [Some ''./run*/z.log'', Some ''./run*/a.log'']"
    unfolding test_report_Inr [OF g] star_sorted
    by (simp add: test_list_entries_test_site star_basenames l)
  have 3: "\<not> sorted [''z.log'', ''a.log'']"
    by simp
  from 1 2 3 show ?thesis
    by (intro conjI)
qed

section \<open>Runs\<close>

lemma generate_build_xml_Inr:
  assumes "generate_build_xml e a si w = Inr w'"
  shows "files w' ''Build.xml'' = Some (PrettyXml (build_site e a si (time_time e (ticks w))))"
  using assms
  by (auto simp: generate_build_xml_def now_def print_def write_file_def
      split: option.splits)

lemma generate_build_xml_ok:
  assumes "\<forall>d. write_fails e ''Build.xml'' d = None"
  shows "generate_build_xml e a si w =
           Inr (w\<lparr>ticks := Suc (ticks w),
                 files := (files w)(''Build.xml'' \<mapsto>
                            PrettyXml (build_site e a si (time_time e (ticks w)))),
                 stdout := stdout w @ [''Generated Build.xml'']\<rparr>)"
  using assms
  by (simp add: generate_build_xml_def now_def print_def write_file_def)

lemma generate_done_xml_ok:
  assumes "\<forall>d. write_fails e ''Done.xml'' d = None"
  shows "generate_done_xml e a w =
           Inr (w\<lparr>ticks := Suc (ticks w),
                 files := (files w)(''Done.xml'' \<mapsto>
                    PrettyXml (Element ''Done'' [] None
                      [leaf ''buildId'' (build_id a),
                       leaf ''time'' (str_int (time_time e (ticks w)))])),
                 stdout := stdout w @ [''Generated Done.xml'']\<rparr>)"
  using assms
  by (simp add: generate_done_xml_def now_def print_def write_file_def)

lemma generate_test_xml_empty:
  assumes "glob_glob e (log_pattern a) = []" and "\<forall>d. write_fails e ''Test.xml'' d = None"
  shows "generate_test_xml e a si w =
           Inr (w\<lparr>ticks := Suc (Suc (Suc (ticks w))),
                 files := (files w)(''Test.xml'' \<mapsto>
                    Utf8Xml (test_site e a si [] (time_time e (ticks w))
                      (time_time e (Suc (ticks w))) (time_time e (Suc (Suc (ticks w)))))),
                 stdout := stdout w @ [''Warning: No log files found in '' @ log_dir a,
                                       ''Generated Test.xml'']\<rparr>)"
  using assms
  by (simp add: generate_test_xml_def now_def print_def write_file_def)

lemma empty_test_site:
  "map children (test_list_elems (test_site e a si [] t0 t1 t2)) = [[]]"
  "test_list_entries (test_site e a si [] t0 t1 t2) = []"
  "test_records (test_site e a si [] t0 t1 t2) = []"
  by (simp_all add: test_list_elems_test_site test_list_entries_test_site test_records_test_site)

lemma demo_bit_length: "bit_length 17179869184 = 35"
  by (simp add: bit_length.simps)

lemma demo_megabytes: "megabytes 17179869184 = Inr 16384"
  by (simp add: megabytes_def round53_def demo_bit_length Let_def)

lemma demo_host_info_returns: "\<exists>si. get_system_info demo_env = Inr si"
  by (simp add: get_system_info_def try_psutil_def demo_env_def demo_psutil_def demo_megabytes)

text \<open>
  C5. When no log file is found and no write fails, the test report generator prints
  the warning and writes a \<^verbatim>\<open>Test.xml\<close> whose test list is empty and which has no record;
  and the whole run, once the host information is collected, returns with all its
  confirmation lines printed.
\<close>

theorem empty_log_directory:
  assumes "glob_glob e (log_pattern (resolve_args p)) = []"
    and "\<forall>f d. write_fails e f d = None"
  shows "(\<exists>w1 site. generate_test_xml e (resolve_args p) si w = Inr w1 \<and>
            stdout w1 = stdout w @ [''Warning: No log files found in '' @ p_log_dir p,
                                    ''Generated Test.xml''] \<and>
            files w1 ''Test.xml'' = Some (Utf8Xml site) \<and>
            map children (test_list_elems site) = [[]] \<and>
            test_list_entries site = [] \<and> test_records site = []) \<and>
         (get_system_info e = Inr si \<longrightarrow>
            (\<exists>w' site. main e p w = Inr w' \<and>
               stdout w' = stdout w @ [''Generated Build.xml'',
                                       ''Warning: No log files found in '' @ p_log_dir p,
                                       ''Generated Test.xml'', ''Generated Done.xml''] \<and>
               files w' ''Test.xml'' = Some (Utf8Xml site) \<and>
               map children (test_list_elems site) = [[]] \<and>
               test_list_entries site = [] \<and> test_records site = []))"
proof (intro conjI impI)
  let ?a = "resolve_args p"
  have ld: "log_dir ?a = p_log_dir p"
    by (simp add: resolve_args_def)
  have wt: "\<forall>d. write_fails e ''Test.xml'' d = None"
    and wb: "\<forall>d. write_fails e ''Build.xml'' d = None"
    and wd: "\<forall>d. write_fails e ''Done.xml'' d = None"
    using assms(2) by simp_all
  show "\<exists>w1 site. generate_test_xml e ?a si w = Inr w1 \<and>
            stdout w1 = stdout w @ [''Warning: No log files found in '' @ p_log_dir p,
                                    ''Generated Test.xml''] \<and>
            files w1 ''Test.xml'' = Some (Utf8Xml site) \<and>
            map children (test_list_elems site) = [[]] \<and>
            test_list_entries site = [] \<and> test_records site = []"
    unfolding generate_test_xml_empty [OF assms(1) wt]
    by (simp add: ld empty_test_site)
  assume si: "get_system_info e = Inr si"
  obtain w1 where b: "generate_build_xml e ?a si w = Inr w1"
    and o1: "stdout w1 = stdout w @ [''Generated Build.xml'']"
    using generate_build_xml_ok [OF wb] by simp
  let ?site = "test_site e ?a si [] (time_time e (ticks w1))
                 (time_time e (Suc (ticks w1))) (time_time e (Suc (Suc (ticks w1))))"
  obtain w2 where t: "generate_test_xml e ?a si w1 = Inr w2"
    and o2: "stdout w2 = stdout w1 @ [''Warning: No log files found in '' @ p_log_dir p,
                                      ''Generated Test.xml'']"
    and f2: "files w2 ''Test.xml'' = Some (Utf8Xml ?site)"
    using generate_test_xml_empty [OF assms(1) wt, of si w1] by (simp add: ld)
  obtain w3 where d: "generate_done_xml e ?a w2 = Inr w3"
    and o3: "stdout w3 = stdout w2 @ [''Generated Done.xml'']"
    and f3: "files w3 ''Test.xml'' = files w2 ''Test.xml''"
    using generate_done_xml_ok [OF wd, of ?a w2] by simp
  have m: "main e p w = Inr w3"
    by (simp add: main_def si b t d)
  have o: "stdout w3 = stdout w @ [''Generated Build.xml'',
                                   ''Warning: No log files found in '' @ p_log_dir p,
                                   ''Generated Test.xml'', ''Generated Done.xml'']"
    by (simp add: o1 o2 o3)
  have f: "files w3 ''Test.xml'' = Some (Utf8Xml ?site)"
    by (simp add: f3 f2)
  show "\<exists>w' site. main e p w = Inr w' \<and>
               stdout w' = stdout w @ [''Generated Build.xml'',
                                       ''Warning: No log files found in '' @ p_log_dir p,
                                       ''Generated Test.xml'', ''Generated Done.xml''] \<and>
               files w' ''Test.xml'' = Some (Utf8Xml site) \<and>
               map children (test_list_elems site) = [[]] \<and>
               test_list_entries site = [] \<and> test_records site = []"
    by (intro exI [of _ w3] exI [of _ ?site] conjI) (fact m o f empty_test_site)+
qed

text \<open>The example host with the log directory \<^verbatim>\<open>empty\<close>.\<close>

theorem empty_log_directory_witness:
  "glob_glob demo_env (log_pattern (resolve_args demo_parsed)) = [] \<and>
   (\<forall>f d. write_fails demo_env f d = None) \<and>
   (\<exists>si w' site. get_system_info demo_env = Inr si \<and>
      main demo_env demo_parsed demo_world = Inr w' \<and>
      stdout w' = [''Generated Build.xml'', ''Warning: No log files found in empty'',
                   ''Generated Test.xml'', ''Generated Done.xml''] \<and>
      files w' ''Test.xml'' = Some (Utf8Xml site) \<and>
      map children (test_list_elems site) = [[]] \<and>
      test_list_entries site = [] \<and> test_records site = [])"
proof -
  have h1: "glob_glob demo_env (log_pattern (resolve_args demo_parsed)) = []"
    by (simp add: demo_env_def demo_parsed_def resolve_args_def log_pattern_def path_join_def)
  have h2: "\<forall>f d. write_fails demo_env f d = None"
    by (simp add: demo_env_def)
  from demo_host_info_returns obtain si where si: "get_system_info demo_env = Inr si"
    by blast
  from empty_log_directory [OF h1 h2, of si demo_world, THEN conjunct2, THEN mp, OF si]
  obtain w' site where
    m: "main demo_env demo_parsed demo_world = Inr w'" and
    o: "stdout w' = stdout demo_world @
          [''Generated Build.xml'', ''Warning: No log files found in '' @ p_log_dir demo_parsed,
           ''Generated Test.xml'', ''Generated Done.xml'']" and
    f: "files w' ''Test.xml'' = Some (Utf8Xml site)" and
    e: "map children (test_list_elems site) = [[]]" "test_list_entries site = []"
       "test_records site = []"
    by (elim exE conjE)
  have o': "stdout w' = [''Generated Build.xml'', ''Warning: No log files found in empty'',
                   ''Generated Test.xml'', ''Generated Done.xml'']"
    unfolding o by (simp add: demo_world_def demo_parsed_def)
  show ?thesis
    by (intro exI [of _ si] exI [of _ w'] exI [of _ site] conjI) (fact h1 h2 si m o' f e)+
qed

section \<open>The build report\<close>

text \<open>
  C7. In a written build report the end time equals the start time in both forms, the
  elapsed minutes are \<^verbatim>\<open>0\<close>, and no element named \<^verbatim>\<open>Warning\<close> or \<^verbatim>\<open>Error\<close> occurs anywhere.
\<close>

theorem build_report_instantaneous:
  assumes "generate_build_xml e a si w = Inr w'"
  shows "\<exists>site build. files w' ''Build.xml'' = Some (PrettyXml site) \<and>
           children site = [build] \<and> tag build = ''Build'' \<and>
           child_text ''StartDateTime'' build = [Some (time_ctime e (time_time e (ticks w)))] \<and>
           child_text ''EndDateTime'' build = child_text ''StartDateTime'' build \<and>
           child_text ''StartBuildTime'' build = [Some (str_int (time_time e (ticks w)))] \<and>
           child_text ''EndBuildTime'' build = child_text ''StartBuildTime'' build \<and>
           child_text ''ElapsedMinutes'' build = [Some ''0''] \<and>
           ''Warning'' \<notin> set (all_tags site) \<and> ''Error'' \<notin> set (all_tags site)"
proof -
  let ?t = "time_time e (ticks w)"
  let ?build = "Element ''Build'' [] None
          [leaf ''StartDateTime'' (time_ctime e ?t),
           leaf ''StartBuildTime'' (str_int ?t),
           leaf ''BuildCommand'' ''polaris_scan'',
           leaf ''EndDateTime'' (time_ctime e ?t),
           leaf ''EndBuildTime'' (str_int ?t),
           leaf ''ElapsedMinutes'' ''0'']"
  have f: "files w' ''Build.xml'' = Some (PrettyXml (build_site e a si ?t))"
    using assms by (rule generate_build_xml_Inr)
  have c: "children (build_site e a si ?t) = [?build]"
    by (simp add: build_site_def)
  have t: "child_text ''StartDateTime'' ?build = [Some (time_ctime e ?t)]"
    "child_text ''EndDateTime'' ?build = [Some (time_ctime e ?t)]"
    "child_text ''StartBuildTime'' ?build = [Some (str_int ?t)]"
    "child_text ''EndBuildTime'' ?build = [Some (str_int ?t)]"
    "child_text ''ElapsedMinutes'' ?build = [Some ''0'']"
    by (simp_all add: child_text_def child_elems_def leaf_def)
  have g: "''Warning'' \<notin> set (all_tags (build_site e a si ?t))"
    "''Error'' \<notin> set (all_tags (build_site e a si ?t))"
    by (simp_all add: build_site_def leaf_def)
  show ?thesis
    by (intro exI [of _ "build_site e a si ?t"] exI [of _ ?build] conjI)
       (simp_all add: f c t g)
qed

theorem build_report_instantaneous_witness:
  "\<exists>w' site build. generate_build_xml demo_env demo_args [] demo_world = Inr w' \<and>
     files w' ''Build.xml'' = Some (PrettyXml site) \<and>
     children site = [build] \<and> tag build = ''Build'' \<and>
     child_text ''StartDateTime'' build = [Some ''Thu Jan  1 00:00:00 1970''] \<and>
     child_text ''EndDateTime'' build = [Some ''Thu Jan  1 00:00:00 1970''] \<and>
     child_text ''StartBuildTime'' build = [Some ''0''] \<and>
     child_text ''EndBuildTime'' build = [Some ''0''] \<and>
     child_text ''ElapsedMinutes'' build = [Some ''0''] \<and>
     ''Warning'' \<notin> set (all_tags site) \<and> ''Error'' \<notin> set (all_tags site)"
proof -
  have "\<forall>d. write_fails demo_env ''Build.xml'' d = None"
    by (simp add: demo_env_def)
  from generate_build_xml_ok [OF this, of demo_args "[]" demo_world] obtain w' where
    g: "generate_build_xml demo_env demo_args [] demo_world = Inr w'"
    by blast
  have z: "str_int (time_time demo_env (ticks demo_world)) = ''0''"
    by (simp add: demo_env_def demo_world_def str_int_def str_nat.simps digit_char_def)
  have c: "time_ctime demo_env (time_time demo_env (ticks demo_world)) =
             ''Thu Jan  1 00:00:00 1970''"
    by (simp add: demo_env_def)
  from build_report_instantaneous [OF g] obtain site build where
    "files w' ''Build.xml'' = Some (PrettyXml site)"
    "children site = [build]" "tag build = ''Build''"
    "child_text ''StartDateTime'' build = [Some ''Thu Jan  1 00:00:00 1970'']"
    "child_text ''EndDateTime'' build = child_text ''StartDateTime'' build"
    "child_text ''StartBuildTime'' build = [Some ''0'']"
    "child_text ''EndBuildTime'' build = child_text ''StartBuildTime'' build"
    "child_text ''ElapsedMinutes'' build = [Some ''0'']"
    "''Warning'' \<notin> set (all_tags site)" "''Error'' \<notin> set (all_tags site)"
    unfolding z c by blast
  with g show ?thesis
    by (intro exI [of _ w'] exI [of _ site] exI [of _ build]) simp
qed

section \<open>The default build name\<close>

lemma split_sep_nonempty: "split_sep c p \<noteq> []"
  by (induction p) (auto simp: Let_def)

lemma split_sep_no_sep: "s \<in> set (split_sep c p) \<Longrightarrow> c \<notin> set s"
proof (induction p arbitrary: s)
  case Nil
  then show ?case by simp
next
  case (Cons x p)
  obtain w ws where r: "split_sep c p = w # ws"
    using split_sep_nonempty [of c p] by (cases "split_sep c p") auto
  show ?case
  proof (cases "x = c")
    case True
    with Cons show ?thesis by auto
  next
    case False
    with Cons.prems r have "s = x # w \<or> s \<in> set ws"
      by (simp add: Let_def)
    with Cons.IH [of w] Cons.IH [of s] r False show ?thesis
      by auto
  qed
qed

lemma norm_comps_subset: "set (norm_comps i cs new) \<subseteq> set cs \<union> set new"
proof (induction i cs new rule: norm_comps.induct)
  case (1 i new)
  then show ?case by simp
next
  case (2 i c cs new)
  then show ?case
    by (auto dest: in_set_butlastD split: if_splits)
qed

lemma norm_comps_no_empty: "[] \<notin> set new \<Longrightarrow> [] \<notin> set (norm_comps i cs new)"
proof (induction i cs new rule: norm_comps.induct)
  case (1 i new)
  then show ?case by simp
next
  case (2 i c cs new)
  then show ?case
    by (auto dest: in_set_butlastD split: if_splits)
qed

lemma norm_comps_dot_free:
  "''.'' \<notin> set cs \<Longrightarrow> ''..'' \<notin> set cs \<Longrightarrow>
     norm_comps i cs new = new @ filter (\<lambda>s. s \<noteq> []) cs"
  by (induction cs arbitrary: new) auto

lemma join_sep_last:
  "comps \<noteq> [] \<Longrightarrow>
     \<exists>d. join_sep ''/'' comps = d @ last comps \<and> (d = [] \<or> last d = CHR ''/'')"
proof (induction comps)
  case Nil
  then show ?case by simp
next
  case (Cons p ps)
  show ?case
  proof (cases ps)
    case Nil
    then show ?thesis by simp
  next
    case (Cons q qs)
    with Cons.IH obtain d where d: "join_sep ''/'' (q # qs) = d @ last (q # qs)"
      by auto
    have 1: "join_sep ''/'' (p # ps) = (p @ ''/'' @ d) @ last (p # ps)"
      using d Cons by simp
    have 2: "last (p @ ''/'' @ d) = CHR ''/''" if "d = [] \<or> last d = CHR ''/''"
      using that by auto
    from Cons.IH Cons obtain d' where
      d': "join_sep ''/'' (q # qs) = d' @ last (q # qs)" "d' = [] \<or> last d' = CHR ''/''"
      by auto
    have "join_sep ''/'' (p # ps) = (p @ ''/'' @ d') @ last (p # ps)"
      using d'(1) Cons by simp
    moreover have "last (p @ ''/'' @ d') = CHR ''/''"
      using d'(2) by auto
    ultimately show ?thesis
      by blast
  qed
qed

lemma basename_joined:
  assumes "comps \<noteq> []" and "\<forall>c \<in> set comps. CHR ''/'' \<notin> set c"
  shows "basename (replicate n CHR ''/'' @ join_sep ''/'' comps) = last comps"
proof -
  from join_sep_last [OF assms(1)] obtain d where
    d: "join_sep ''/'' comps = d @ last comps" "d = [] \<or> last d = CHR ''/''"
    by blast
  have "replicate n CHR ''/'' @ d = [] \<or> last (replicate n CHR ''/'' @ d) = CHR ''/''"
  proof (cases "d = []")
    case True
    then show ?thesis
      by (cases n) simp_all
  next
    case False
    with d(2) show ?thesis
      by simp
  qed
  moreover have "CHR ''/'' \<notin> set (last comps)"
    using assms by simp
  ultimately have "basename ((replicate n CHR ''/'' @ d) @ last comps) = last comps"
    by (rule basename_append)
  then show ?thesis
    by (simp add: d(1))
qed

lemma initial_slashes_pos:
  "(initial_slashes p \<noteq> 0) = prefix ''/'' p" "(0 < initial_slashes p) = prefix ''/'' p"
  "(initial_slashes p = 0) = (\<not> prefix ''/'' p)"
  by (simp_all add: initial_slashes_def)

lemma basename_slashes: "basename (replicate n CHR ''/'') = []"
  by (cases n) (simp_all add: basename_def replicate_append_same [symmetric] del: replicate_Suc)

lemma basename_normpath:
  "basename (normpath dir) =
     (let comps = norm_comps (prefix ''/'' dir) (split_sep CHR ''/'' dir) []
      in if comps \<noteq> [] then last comps else if prefix ''/'' dir then [] else ''.'')"
proof (cases "dir = []")
  case True
  then show ?thesis
    by (simp add: normpath_def basename_def)
next
  case False
  let ?comps = "norm_comps (prefix ''/'' dir) (split_sep CHR ''/'' dir) []"
  let ?n = "initial_slashes dir"
  let ?q = "replicate ?n CHR ''/'' @ join_sep ''/'' ?comps"
  have np: "normpath dir = (if ?q = [] then ''.'' else ?q)"
    unfolding normpath_def Let_def initial_slashes_pos(1)
    by (simp only: False if_False)
  show ?thesis
  proof (cases "?comps = []")
    case True
    show ?thesis
    proof (cases "prefix ''/'' dir")
      case True
      then have "?n \<noteq> 0"
        by (simp add: initial_slashes_pos)
      then have "?q \<noteq> []"
        by simp
      with \<open>?comps = []\<close> True show ?thesis
        by (simp add: np basename_slashes)
    next
      case False
      then have "?n = 0"
        using initial_slashes_pos(1) [of dir] by simp
      with \<open>?comps = []\<close> False show ?thesis
        by (simp add: np basename_def)
    qed
  next
    case False
    have ns: "\<forall>c \<in> set ?comps. CHR ''/'' \<notin> set c"
      using norm_comps_subset [of "prefix ''/'' dir" "split_sep CHR ''/'' dir" "[]"]
        split_sep_no_sep [of _ "CHR ''/''" dir]
      by auto
    have "[] \<notin> set ?comps"
      by (rule norm_comps_no_empty) simp
    with False have "last ?comps \<noteq> []"
      using last_in_set by metis
    then have q: "?q \<noteq> []"
      using join_sep_last [OF False] by auto
    have "normpath dir = ?q"
      unfolding np by (simp only: q if_False)
    then have "basename (normpath dir) = last ?comps"
      using basename_joined [OF False ns, of ?n] by (simp only:)
    with False show ?thesis
      by (simp add: Let_def)
  qed
qed

lemma dot_free_build_name:
  assumes "dot_free dir" and "trailing_segment dir \<noteq> []"
  shows "basename (normpath dir) = trailing_segment dir"
proof -
  let ?segs = "filter (\<lambda>s. s \<noteq> []) (split_sep CHR ''/'' dir)"
  have n: "norm_comps (prefix ''/'' dir) (split_sep CHR ''/'' dir) [] = ?segs"
    using assms(1) by (simp add: dot_free_def norm_comps_dot_free)
  have s: "?segs \<noteq> []"
    using assms(2) by (auto simp: trailing_segment_def Let_def split: if_splits)
  then have "trailing_segment dir = last ?segs"
    by (simp add: trailing_segment_def Let_def)
  moreover have "basename (normpath dir) = last ?segs"
    unfolding basename_normpath n using s by (simp add: Let_def)
  ultimately show ?thesis
    by simp
qed

lemma nightly_run: "basename (normpath ''/data/nightly_run'') = ''nightly_run''"
  by (simp add: basename_normpath Let_def)

text \<open>
  C8, as amended. When the build name is omitted, the effective build name is the last
  component of the normalised log directory path, where empty and \<^verbatim>\<open>.\<close> segments are
  dropped and a \<^verbatim>\<open>..\<close> cancels the segment before it; it is \<^verbatim>\<open>.\<close> for a relative path and
  empty for an absolute path with no component left. For a path that has a non-empty
  segment and no \<^verbatim>\<open>.\<close> or \<^verbatim>\<open>..\<close> segment this is the trailing segment of the path as
  written, and \<^verbatim>\<open>/data/nightly_run\<close> gives \<^verbatim>\<open>nightly_run\<close>.
\<close>

theorem default_build_name:
  "effective_build_name None dir =
     (let comps = norm_comps (prefix ''/'' dir) (split_sep CHR ''/'' dir) []
      in if comps \<noteq> [] then last comps else if prefix ''/'' dir then [] else ''.'') \<and>
   (dot_free dir \<and> trailing_segment dir \<noteq> [] \<longrightarrow>
      effective_build_name None dir = trailing_segment dir) \<and>
   effective_build_name None ''/data/nightly_run'' = ''nightly_run''"
  using dot_free_build_name [of dir] nightly_run
  by (simp add: effective_build_name_def basename_normpath)

text \<open>With a trailing separator: \<^verbatim>\<open>/data/nightly_run/\<close> gives \<^verbatim>\<open>nightly_run\<close> as well.\<close>

theorem default_build_name_witness:
  "dot_free ''/data/nightly_run/'' \<and> trailing_segment ''/data/nightly_run/'' \<noteq> [] \<and>
   effective_build_name None ''/data/nightly_run/'' = ''nightly_run'' \<and>
   trailing_segment ''/data/nightly_run/'' = ''nightly_run''"
proof -
  have t: "trailing_segment ''/data/nightly_run/'' = ''nightly_run''"
    by (simp add: trailing_segment_def Let_def)
  have d: "dot_free ''/data/nightly_run/''"
    by (simp add: dot_free_def Let_def)
  from default_build_name [of "''/data/nightly_run/''"] d t show ?thesis
    by simp
qed

text \<open>
  C8 as stated fails where the path has a \<^verbatim>\<open>..\<close> segment: for \<^verbatim>\<open>/data/nightly_run/..\<close> the
  build name is \<^verbatim>\<open>data\<close>, and the trailing segment of the path is \<^verbatim>\<open>..\<close>.
\<close>

theorem default_build_name_counterexample:
  "effective_build_name None ''/data/nightly_run/..'' = ''data'' \<and>
   trailing_segment ''/data/nightly_run/..'' = ''..'' \<and>
   effective_build_name None ''/data/nightly_run/..'' \<noteq> trailing_segment ''/data/nightly_run/..''"
  by (simp add: effective_build_name_def basename_normpath trailing_segment_def Let_def)




section \<open>The host information collector\<close>

text \<open>
  A byte count of 73 bits, all set: the double nearest to the quotient is \<open>2^53\<close>, one more
  than the integer quotient.
\<close>

lemma bit_length_large: "bit_length 9444732965739290427391 = 73"
  by (simp add: bit_length.simps)

lemma megabytes_rounds_up: "megabytes 9444732965739290427391 = Inr 9007199254740992"
  by (simp add: megabytes_def round53_def bit_length_large Let_def)

lemmas host_defs = get_system_info_def try_psutil_def vendor_fields_def host_info_with_def

lemma get_system_info_shape:
  "(fst (try_psutil e []) = None \<and>
      (\<exists>l p m. get_system_info e = Inr (host_info_with e l p m))) \<or>
   (\<exists>msg. fst (try_psutil e []) = Some (ImportError msg) \<and>
      get_system_info e = Inr (host_info_with e ''1'' ''1'' ''1024'')) \<or>
   (\<exists>msg. fst (try_psutil e []) = Some (OtherError msg) \<and>
      get_system_info e = Inl (OtherError msg))"
proof (cases "import_psutil e")
  case (Inl x)
  then show ?thesis
    by (cases x) (simp_all add: host_defs)
next
  case m: (Inr m)
  show ?thesis
  proof (cases "cpu_count_logical m")
    case (Inl x)
    with m show ?thesis
      by (cases x) (simp_all add: host_defs)
  next
    case l: (Inr l)
    show ?thesis
    proof (cases "cpu_count_physical m")
      case (Inl x)
      with m l show ?thesis
        by (cases x) (simp_all add: host_defs)
    next
      case p: (Inr p)
      show ?thesis
      proof (cases "virtual_memory_total m")
        case (Inl x)
        with m l p show ?thesis
          by (cases x) (simp_all add: host_defs)
      next
        case b: (Inr b)
        show ?thesis
        proof (cases "megabytes b")
          case (Inl x)
          with m l p b show ?thesis
            by (cases x) (simp_all add: host_defs)
        next
          case (Inr mb)
          with m l p b show ?thesis
            by (simp add: host_defs)
        qed
      qed
    qed
  qed
qed

lemma host_info_with_keys: "map fst (host_info_with e l p m) = host_keys"
  by (simp add: host_info_with_def host_keys_def)

lemma host_info_with_values:
  "map_of (host_info_with e l p m) ''NumberOfLogicalCPU'' = Some l"
  "map_of (host_info_with e l p m) ''NumberOfPhysicalCPU'' = Some p"
  "map_of (host_info_with e l p m) ''TotalPhysicalMemory'' = Some m"
  by (simp_all add: host_info_with_def)

text \<open>
  C6, as amended. Whenever the collector returns, the mapping has the fixed keys in
  their order, and it differs from one run to another only in the two CPU counts and
  the memory. When the import of \<^verbatim>\<open>psutil\<close> or one of its queries raises \<^verbatim>\<open>ImportError\<close>, these
  three are \<^verbatim>\<open>1\<close>, \<^verbatim>\<open>1\<close> and \<^verbatim>\<open>1024\<close>. The collector raises exactly when the import or a query
  raises an exception of another kind, and raises that exception.
\<close>

theorem host_info_collector:
  "(\<forall>info. get_system_info e = Inr info \<longrightarrow>
      map fst info = host_keys \<and> (\<exists>l p m. info = host_info_with e l p m)) \<and>
   (\<forall>msg. fst (try_psutil e []) = Some (ImportError msg) \<longrightarrow>
      get_system_info e = Inr (host_info_with e ''1'' ''1'' ''1024'')) \<and>
   (\<forall>msg. import_psutil e = Inl (ImportError msg) \<longrightarrow>
      fst (try_psutil e []) = Some (ImportError msg)) \<and>
   (\<forall>x. get_system_info e = Inl x \<longleftrightarrow>
      (\<exists>msg. x = OtherError msg \<and> fst (try_psutil e []) = Some x))"
proof -
  have 3: "\<forall>msg. import_psutil e = Inl (ImportError msg) \<longrightarrow>
      fst (try_psutil e []) = Some (ImportError msg)"
    by (simp add: try_psutil_def)
  from get_system_info_shape [of e] consider
    (ok) l p m where "fst (try_psutil e []) = None"
      "get_system_info e = Inr (host_info_with e l p m)"
    | (placeholders) msg where "fst (try_psutil e []) = Some (ImportError msg)"
      "get_system_info e = Inr (host_info_with e ''1'' ''1'' ''1024'')"
    | (raised) msg where "fst (try_psutil e []) = Some (OtherError msg)"
      "get_system_info e = Inl (OtherError msg)"
    by blast
  then show ?thesis
  proof cases
    case ok
    with 3 show ?thesis
      by (auto simp: host_info_with_keys)
  next
    case placeholders
    with 3 show ?thesis
      by (auto simp: host_info_with_keys)
  next
    case raised
    with 3 show ?thesis
      by auto
  qed
qed

text \<open>The host without \<^verbatim>\<open>psutil\<close>: the placeholders.\<close>

theorem host_info_collector_witness:
  "import_psutil bare_env = Inl (ImportError ''No module named psutil'') \<and>
   get_system_info bare_env = Inr (host_info_with bare_env ''1'' ''1'' ''1024'') \<and>
   map fst (host_info_with bare_env ''1'' ''1'' ''1024'') = host_keys \<and>
   map_of (host_info_with bare_env ''1'' ''1'' ''1024'') ''TotalPhysicalMemory'' = Some ''1024''"
proof -
  have i: "import_psutil bare_env = Inl (ImportError ''No module named psutil'')"
    by (simp add: bare_env_def)
  note t = host_info_collector [of bare_env]
  note f = t [THEN conjunct2, THEN conjunct2, THEN conjunct1, THEN spec, THEN mp, OF i]
  note g = t [THEN conjunct2, THEN conjunct1, THEN spec, THEN mp, OF f]
  note k = t [THEN conjunct1, THEN spec, THEN mp, OF g, THEN conjunct1]
  show ?thesis
    by (intro conjI) (fact i g k host_info_with_values)+
qed

text \<open>
  C6 as stated fails where \<^verbatim>\<open>psutil\<close> is installed and a query raises: on the host whose
  memory query raises \<^verbatim>\<open>PermissionError\<close> the collector raises it.
\<close>

theorem host_info_collector_counterexample:
  "import_psutil denied_env =
     Inr (demo_psutil\<lparr>virtual_memory_total := Inl (OtherError ''PermissionError'')\<rparr>) \<and>
   get_system_info denied_env = Inl (OtherError ''PermissionError'')"
  by (simp add: denied_env_def demo_env_def demo_psutil_def get_system_info_def try_psutil_def)

end
